theory Spec2Isabelle
  imports Complex_Main "HOL-Library.Sublist" "HOL-Library.AList"
begin

section \<open>The serial test tool: a shallow embedding of its engine\<close>

text \<open>
  The program is one Python module, \<^verbatim>\<open>otn_Pre_test_v10.py\<close>: a Tk front end around a
  runner that sends each command of a test plan over a serial port, polls the port for
  an expected answer and writes a verdict into the row of a results table.

  What is modelled, and how:
  \<^item> Python \<^verbatim>\<open>str\<close> values are \<^typ>\<open>string\<close>; a character stands for a code point
    below 256. The text written to and read from the port is modelled after
    \<^verbatim>\<open>encode()\<close> and \<^verbatim>\<open>decode(errors="ignore")\<close>.
  \<^item> An exception is a value: \<open>Inl msg\<close> with \<open>msg\<close> the text \<^verbatim>\<open>str(e)\<close>.
  \<^item> The serial port, the \<^verbatim>\<open>re\<close> module and \<^verbatim>\<open>textwrap.wrap\<close> are libraries, not
    code of the program: they are the fields of the environment \<open>E\<close>, and every theorem
    holds for every environment.
  \<^item> Time is a clock in milliseconds. \<^verbatim>\<open>time.sleep(s)\<close> advances it by exactly
    \<open>1000 s\<close>; every other statement takes no time.
  \<^item> The results table (a \<^verbatim>\<open>ttk.Treeview\<close>) is the list of its rows in child order;
    a row is its nine column values and its tag. The table hands back the strings it was
    given.
  \<^item> The Stop button runs on the interface thread. The instant at which it is pressed is
    part of the world, and the runner sees \<^verbatim>\<open>self.stop_flag\<close> true from that instant on.
\<close>

subsection \<open>Text helpers\<close>

text \<open>The characters \<^verbatim>\<open>str.strip()\<close> removes, among the code points below 256.\<close>

definition py_isspace :: "char \<Rightarrow> bool" where
  "py_isspace c = (of_char c \<in> {9, 10, 11, 12, 13, 28, 29, 30, 31, 32, 133, 160 :: nat})"

definition py_strip :: "string \<Rightarrow> string" where
  "py_strip s = rev (dropWhile py_isspace (rev (dropWhile py_isspace s)))"

text \<open>\<^verbatim>\<open>s.replace("\n", " ")\<close>\<close>

definition replace_newlines :: "string \<Rightarrow> string" where
  "replace_newlines s = map (\<lambda>c. if c = CHR 0x0A then CHR '' '' else c) s"

text \<open>\<^verbatim>\<open>sep.join(parts)\<close>\<close>

fun py_join :: "string \<Rightarrow> string list \<Rightarrow> string" where
  "py_join sep [] = []"
| "py_join sep [x] = x"
| "py_join sep (x # y # ys) = x @ sep @ py_join sep (y # ys)"

text \<open>The decimal digit \<open>d\<close>, for \<open>d < 10\<close>.\<close>

definition digit_char :: "nat \<Rightarrow> char" where
  "digit_char d = ''0123456789'' ! d"

fun show_nat :: "nat \<Rightarrow> string" where
  "show_nat n = (if n < 10 then [digit_char n] else show_nat (n div 10) @ [digit_char (n mod 10)])"

declare show_nat.simps [simp del]

text \<open>
  \<^verbatim>\<open>f"{dur:.2f}"\<close> for a duration given in milliseconds. Every duration of the model is
  a multiple of 50 ms, so the two decimals are exact and no rounding takes place.
\<close>

definition fmt_2f :: "int \<Rightarrow> string" where
  "fmt_2f ms =
     show_nat (nat ms div 1000) @ ''.'' @
     [digit_char (nat ms div 100 mod 10), digit_char (nat ms div 10 mod 10)]"

subsection \<open>The environment: serial port, regular expressions, text wrapping\<close>

type_synonym 'a res = "string + 'a"

text \<open>
  \<open>'d\<close> is the state of the serial line (the port and the device behind it), \<open>'p\<close> a
  compiled pattern.
  \<^item> \<open>ser_reset\<close>: \<^verbatim>\<open>ser.reset_input_buffer()\<close>
  \<^item> \<open>ser_write\<close>: \<^verbatim>\<open>ser.write(text.encode())\<close>
  \<^item> \<open>ser_in_waiting\<close>: \<^verbatim>\<open>ser.in_waiting\<close>
  \<^item> \<open>ser_read\<close>: \<^verbatim>\<open>ser.read(n).decode(errors="ignore")\<close>
  \<^item> \<open>ser_is_open\<close>: \<^verbatim>\<open>ser.is_open\<close>
  \<^item> \<open>ser_elapse\<close>: what the line does while the caller sleeps
  \<^item> \<open>re_compile\<close>, \<open>pat_search\<close>: \<^verbatim>\<open>re.search(pattern, s)\<close> compiles the pattern
    (\<^verbatim>\<open>re.error\<close> when it is malformed) and then searches \<^verbatim>\<open>s\<close>
  \<^item> \<open>textwrap_wrap\<close>: \<^verbatim>\<open>textwrap.wrap(text, width=w)\<close>
\<close>

record ('d, 'p) env =
  ser_reset :: "'d \<Rightarrow> unit res \<times> 'd"
  ser_write :: "string \<Rightarrow> 'd \<Rightarrow> unit res \<times> 'd"
  ser_in_waiting :: "'d \<Rightarrow> nat res \<times> 'd"
  ser_read :: "nat \<Rightarrow> 'd \<Rightarrow> string res \<times> 'd"
  ser_is_open :: "'d \<Rightarrow> bool"
  ser_elapse :: "int \<Rightarrow> 'd \<Rightarrow> 'd"
  re_compile :: "string \<Rightarrow> 'p res"
  pat_search :: "'p \<Rightarrow> string \<Rightarrow> bool"
  textwrap_wrap :: "string \<Rightarrow> nat \<Rightarrow> string list"

text \<open>
  \<open>ser\<close> is \<^verbatim>\<open>self.ser\<close> (\<open>None\<close> before the first connection), \<open>clock\<close> is
  \<^verbatim>\<open>time.time()\<close> in milliseconds, \<open>stop_pressed_at\<close> the instant of the Stop button.
\<close>

record 'd world =
  ser :: "'d option"
  clock :: int
  stop_pressed_at :: "int option"

definition stop_flag :: "'d world \<Rightarrow> bool" where
  "stop_flag w = (case stop_pressed_at w of None \<Rightarrow> False | Some t \<Rightarrow> t \<le> clock w)"

text \<open>\<^verbatim>\<open>_stop_now\<close>: the Stop button, pressed now.\<close>

definition stop_now :: "'d world \<Rightarrow> 'd world" where
  "stop_now w = w\<lparr>stop_pressed_at := Some (clock w)\<rparr>"

text \<open>
  \<^verbatim>\<open>self.stop_flag = False\<close> at the start of a run: a press made so far is forgotten.
\<close>

definition clear_stop :: "'d world \<Rightarrow> 'd world" where
  "clear_stop w = (if stop_flag w then w\<lparr>stop_pressed_at := None\<rparr> else w)"

text \<open>\<^verbatim>\<open>time.sleep(ms / 1000)\<close>\<close>

definition sleep :: "('d, 'p) env \<Rightarrow> int \<Rightarrow> 'd world \<Rightarrow> 'd world" where
  "sleep E ms w = w\<lparr>ser := map_option (ser_elapse E ms) (ser w), clock := clock w + ms\<rparr>"

subsection \<open>Test cases and result rows\<close>

text \<open>
  A test case has the ten fields of \<^verbatim>\<open>JSON_FIELDS\<close>. The runner is modelled on test
  cases whose text fields are strings.
\<close>

record testcase =
  command_name :: string
  command :: string
  expected :: string
  expected_regex :: string
  negative :: bool
  wait_till :: rat
  print_after :: string
  print_ahead_chars :: int
  message :: string
  retries :: int

text \<open>
  The columns of the results table, in order: \<^verbatim>\<open>vals[0]\<close> to \<^verbatim>\<open>vals[8]\<close> are
  Iter, Cmd Name, Cmd, Expected, Regex, Found, Result, Duration, Snippet/Msg.
\<close>

record row =
  iter_col :: nat
  cmd_name_col :: string
  cmd_col :: string
  expected_col :: string
  regex_col :: string
  found_col :: string
  result_col :: string
  duration_col :: string
  snippet_col :: string
  tags :: "string list"

definition wrap_text :: "('d, 'p) env \<Rightarrow> string \<Rightarrow> string" where
  "wrap_text E text = py_join [CHR 0x0A] (textwrap_wrap E text 50)"

subsection \<open>Status markers\<close>

definition mark_running :: "row \<Rightarrow> row" where
  "mark_running r = r\<lparr>result_col := ''RUNNING'', tags := [''running'']\<rparr>"

definition mark_pass :: "row \<Rightarrow> string \<Rightarrow> string \<Rightarrow> int \<Rightarrow> row" where
  "mark_pass r snippet msg dur =
     r\<lparr>found_col := ''YES'', result_col := ''PASS'', duration_col := fmt_2f dur,
       snippet_col := (if msg \<noteq> [] then msg else snippet), tags := [''pass'']\<rparr>"

definition mark_fail :: "row \<Rightarrow> string \<Rightarrow> string \<Rightarrow> int \<Rightarrow> row" where
  "mark_fail r snippet msg dur =
     r\<lparr>found_col := ''NO'', result_col := ''FAIL'', duration_col := fmt_2f dur,
       snippet_col := (if msg \<noteq> [] then msg else snippet), tags := [''fail'']\<rparr>"

definition mark_error :: "row \<Rightarrow> string \<Rightarrow> row" where
  "mark_error r msg =
     r\<lparr>found_col := ''?'', result_col := ''ERROR'', snippet_col := msg, tags := [''error'']\<rparr>"

subsection \<open>One attempt\<close>

text \<open>
  Lines 388 to 391: with a port, clear its input, write the command and a CR LF, and
  sleep 100 ms. An exception leaves the world as the failing call left it.
\<close>

definition send_command :: "('d, 'p) env \<Rightarrow> string \<Rightarrow> 'd world \<Rightarrow> unit res \<times> 'd world" where
  "send_command E cmd w =
     (case ser w of
        None \<Rightarrow> (Inr (), w)
      | Some d \<Rightarrow>
          (case ser_reset E d of
             (Inl e, d1) \<Rightarrow> (Inl e, w\<lparr>ser := Some d1\<rparr>)
           | (Inr _, d1) \<Rightarrow>
               (case ser_write E (cmd @ [CHR 0x0D, CHR 0x0A]) d1 of
                  (Inl e, d2) \<Rightarrow> (Inl e, w\<lparr>ser := Some d2\<rparr>)
                | (Inr _, d2) \<Rightarrow> (Inr (), sleep E 100 (w\<lparr>ser := Some d2\<rparr>)))))"

text \<open>
  Lines 398 and 399: when the port reports bytes waiting, read as many as it reports
  (\<^verbatim>\<open>in_waiting\<close> is evaluated a second time for the read) and append them to the buffer.
\<close>

definition drain :: "('d, 'p) env \<Rightarrow> 'd world \<Rightarrow> string \<Rightarrow> string res \<times> 'd world" where
  "drain E w buf =
     (case ser w of
        None \<Rightarrow> (Inr buf, w)
      | Some d \<Rightarrow>
          (case ser_in_waiting E d of
             (Inl e, d1) \<Rightarrow> (Inl e, w\<lparr>ser := Some d1\<rparr>)
           | (Inr n, d1) \<Rightarrow>
               if n = 0 then (Inr buf, w\<lparr>ser := Some d1\<rparr>)
               else
                 (case ser_in_waiting E d1 of
                    (Inl e, d2) \<Rightarrow> (Inl e, w\<lparr>ser := Some d2\<rparr>)
                  | (Inr m, d2) \<Rightarrow>
                      (case ser_read E m d2 of
                         (Inl e, d3) \<Rightarrow> (Inl e, w\<lparr>ser := Some d3\<rparr>)
                       | (Inr s, d3) \<Rightarrow> (Inr (buf @ s), w\<lparr>ser := Some d3\<rparr>)))))"

text \<open>\<^verbatim>\<open>re.search(pattern, s)\<close>, as a truth value.\<close>

definition re_search :: "('d, 'p) env \<Rightarrow> string \<Rightarrow> string \<Rightarrow> bool res" where
  "re_search E pattern s =
     (case re_compile E pattern of Inl e \<Rightarrow> Inl e | Inr p \<Rightarrow> Inr (pat_search E p s))"

text \<open>
  Lines 400 to 405, the two tests of one poll: \<open>Inr True\<close> when the loop sets
  \<^verbatim>\<open>found\<close> and breaks, \<open>Inr False\<close> when it goes on.
\<close>

definition check_match :: "('d, 'p) env \<Rightarrow> string \<Rightarrow> string \<Rightarrow> string \<Rightarrow> bool res" where
  "check_match E expct regex buf =
     (if expct \<noteq> [] \<and> sublist expct buf then Inr True
      else if regex \<noteq> [] then re_search E regex buf
      else Inr False)"

text \<open>
  Lines 396 to 405, the wait loop, with \<^verbatim>\<open>timeout = 3.0\<close>. The result is the exception
  raised, or \<^verbatim>\<open>found\<close> and \<^verbatim>\<open>buf\<close> at the end of the loop.
\<close>

function poll_loop ::
  "('d, 'p) env \<Rightarrow> string \<Rightarrow> string \<Rightarrow> int \<Rightarrow> 'd world \<Rightarrow> string \<Rightarrow> (bool \<times> string) res \<times> 'd world"
where
  "poll_loop E expct regex t0 w buf =
     (if clock w - t0 < 3000 then
        (case drain E (sleep E 50 w) buf of
           (Inl e, w1) \<Rightarrow> (Inl e, w1)
         | (Inr buf1, w1) \<Rightarrow>
             (case check_match E expct regex buf1 of
                Inl e \<Rightarrow> (Inl e, w1)
              | Inr True \<Rightarrow> (Inr (True, buf1), w1)
              | Inr False \<Rightarrow> poll_loop E expct regex t0 w1 buf1))
      else (Inr (False, buf), w))"
  by pat_completeness auto
termination
  by (relation "measure (\<lambda>(E, expct, regex, t0, w, buf). nat (3000 - (clock w - t0)))")
    (auto simp: drain_def sleep_def split: option.splits prod.splits sum.splits if_splits)

declare poll_loop.simps [simp del]

text \<open>
  Lines 378 to 414, the body of the runner's loop for one row. \<^verbatim>\<open>negative\<close> and
  \<^verbatim>\<open>msg\<close> are the local constants of lines 384 and 385.
\<close>

definition run_attempt :: "('d, 'p) env \<Rightarrow> 'd world \<Rightarrow> row \<Rightarrow> 'd world \<times> row" where
  "run_attempt E w r0 =
     (let r = mark_running r0;
          cmd = replace_newlines (cmd_col r);
          expct = expected_col r;
          regex = regex_col r;
          negative = False;
          msg = []
      in case send_command E cmd w of
           (Inl e, w1) \<Rightarrow> (w1, mark_error r e)
         | (Inr _, w1) \<Rightarrow>
             (case poll_loop E expct regex (clock w1) w1 [] of
                (Inl e, w2) \<Rightarrow> (w2, mark_error r e)
              | (Inr (found, buf), w2) \<Rightarrow>
                  (let dur = clock w2 - clock w1;
                       snippet = take 80 (py_strip buf)
                   in if found \<noteq> negative then (w2, mark_pass r snippet msg dur)
                      else (w2, mark_fail r snippet msg dur))))"

subsection \<open>The run\<close>

text \<open>
  Lines 375 to 417: the loop over the rows of the table. The flag is read once per row,
  before the row is marked as running.
\<close>

fun run_worker :: "('d, 'p) env \<Rightarrow> 'd world \<Rightarrow> row list \<Rightarrow> 'd world \<times> row list" where
  "run_worker E w [] = (w, [])"
| "run_worker E w (r # rs) =
     (if stop_flag w then (w, r # rs)
      else (case run_attempt E w r of
              (w1, r1) \<Rightarrow> (case run_worker E w1 rs of (w2, rs1) \<Rightarrow> (w2, r1 # rs1))))"

text \<open>Lines 351 to 362: the row inserted for one test case of one iteration.\<close>

definition pending_row :: "('d, 'p) env \<Rightarrow> nat \<Rightarrow> testcase \<Rightarrow> row" where
  "pending_row E it t =
     \<lparr>iter_col = it, cmd_name_col = command_name t, cmd_col = wrap_text E (command t),
      expected_col = expected t, regex_col = expected_regex t, found_col = [],
      result_col = ''PENDING'', duration_col = [], snippet_col = [], tags = [''pending'']\<rparr>"

text \<open>Lines 349 to 362: \<^verbatim>\<open>for it in range(1, iters+1): for t in self.tests\<close>.\<close>

definition schedule_rows :: "('d, 'p) env \<Rightarrow> nat \<Rightarrow> testcase list \<Rightarrow> row list" where
  "schedule_rows E iters tests = concat (map (\<lambda>it. map (pending_row E it) tests) [1..<iters + 1])"

text \<open>
  \<^verbatim>\<open>run_all\<close>: \<open>None\<close> when the run is refused with a warning (no tests, or no open
  port); otherwise the flag is cleared, the table is filled with pending rows and the
  worker runs over them. \<open>iter_var\<close> is the number in the Iterations entry.
\<close>

definition run_all ::
  "('d, 'p) env \<Rightarrow> 'd world \<Rightarrow> testcase list \<Rightarrow> int \<Rightarrow> ('d world \<times> row list) option"
where
  "run_all E w tests iter_var =
     (if tests = [] then None
      else case ser w of
             None \<Rightarrow> None
           | Some d \<Rightarrow>
               if \<not> ser_is_open E d then None
               else Some (run_worker E (clear_stop w)
                            (schedule_rows E (nat (max 1 iter_var)) tests)))"

subsection \<open>Loading a test plan\<close>

text \<open>
  The values \<^verbatim>\<open>json.load\<close> produces. A float is the rational it denotes, or an
  infinity or a NaN; rounding to a double is not modelled. A dictionary is the list of
  its items, in insertion order.
\<close>

datatype pyfloat = Finite rat | PosInf | NegInf | NaN

datatype pyval =
    PNone
  | PBool bool
  | PInt int
  | PFloat pyfloat
  | PStr string
  | PList "pyval list"
  | PDict "(string \<times> pyval) list"

text \<open>
  \<^verbatim>\<open>int(v)\<close>, with \<open>None\<close> when it raises. Reading a number out of a string is the
  library's work: \<open>str_int\<close> is \<^verbatim>\<open>int\<close> on strings and \<open>str_float\<close> is
  \<^verbatim>\<open>float\<close> on strings.
\<close>

fun py_int :: "(string \<Rightarrow> int option) \<Rightarrow> pyval \<Rightarrow> int option" where
  "py_int str_int (PBool b) = Some (if b then 1 else 0)"
| "py_int str_int (PInt i) = Some i"
| "py_int str_int (PFloat (Finite r)) = Some (if r < 0 then - \<lfloor>- r\<rfloor> else \<lfloor>r\<rfloor>)"
| "py_int str_int (PFloat _) = None"
| "py_int str_int (PStr s) = str_int s"
| "py_int str_int _ = None"

text \<open>\<^verbatim>\<open>float(v)\<close>; an integer beyond the range of a double raises \<^verbatim>\<open>OverflowError\<close>.\<close>

fun py_float :: "(string \<Rightarrow> pyfloat option) \<Rightarrow> pyval \<Rightarrow> pyfloat option" where
  "py_float str_float (PBool b) = Some (Finite (if b then 1 else 0))"
| "py_float str_float (PInt i) =
     (if \<bar>i\<bar> < 2 ^ 1024 - 2 ^ 970 then Some (Finite (of_int i)) else None)"
| "py_float str_float (PFloat f) = Some f"
| "py_float str_float (PStr s) = str_float s"
| "py_float str_float _ = None"

text \<open>\<^verbatim>\<open>bool(v)\<close>\<close>

fun py_bool :: "pyval \<Rightarrow> bool" where
  "py_bool PNone = False"
| "py_bool (PBool b) = b"
| "py_bool (PInt i) = (i \<noteq> 0)"
| "py_bool (PFloat f) = (f \<noteq> Finite 0)"
| "py_bool (PStr s) = (s \<noteq> [])"
| "py_bool (PList xs) = (xs \<noteq> [])"
| "py_bool (PDict kvs) = (kvs \<noteq> [])"

definition safe_int :: "(string \<Rightarrow> int option) \<Rightarrow> pyval \<Rightarrow> int \<Rightarrow> int" where
  "safe_int str_int v dflt = (case py_int str_int v of Some i \<Rightarrow> i | None \<Rightarrow> dflt)"

definition safe_float :: "(string \<Rightarrow> pyfloat option) \<Rightarrow> pyval \<Rightarrow> pyfloat \<Rightarrow> pyfloat" where
  "safe_float str_float v dflt = (case py_float str_float v of Some f \<Rightarrow> f | None \<Rightarrow> dflt)"

definition JSON_FIELDS :: "string list" where
  "JSON_FIELDS =
     [''command_name'', ''command'', ''expected'', ''expected_regex'', ''negative'',
      ''wait_till'', ''print_after'', ''print_ahead_chars'', ''message'', ''retries'']"

definition DEFAULT_ROW :: "(string \<times> pyval) list" where
  "DEFAULT_ROW =
     [(''command_name'', PStr []), (''command'', PStr []), (''expected'', PStr []),
      (''expected_regex'', PStr []), (''negative'', PBool False),
      (''wait_till'', PFloat (Finite 1)), (''print_after'', PStr []),
      (''print_ahead_chars'', PInt 40), (''message'', PStr []), (''retries'', PInt 0)]"

text \<open>\<^verbatim>\<open>d.get(k, dflt)\<close>\<close>

definition dict_get :: "(string \<times> pyval) list \<Rightarrow> string \<Rightarrow> pyval \<Rightarrow> pyval" where
  "dict_get d k dflt = (case map_of d k of None \<Rightarrow> dflt | Some v \<Rightarrow> v)"

text \<open>Lines 41 and 42: \<^verbatim>\<open>for k in JSON_FIELDS: if k in row: out[k] = row[k]\<close>.\<close>

definition copy_fields :: "(string \<times> pyval) list \<Rightarrow> (string \<times> pyval) list \<Rightarrow> (string \<times> pyval) list" where
  "copy_fields items out =
     fold (\<lambda>k acc. case map_of items k of None \<Rightarrow> acc | Some v \<Rightarrow> AList.update k v acc)
       JSON_FIELDS out"

text \<open>
  \<^verbatim>\<open>normalize_row\<close>. The calls of \<^verbatim>\<open>safe_float\<close> and \<^verbatim>\<open>safe_int\<close> on lines 44 to 46 pass
  one argument, so the defaults are those of the two signatures: 1.0 and 0.
\<close>

definition normalize_row ::
  "(string \<Rightarrow> int option) \<Rightarrow> (string \<Rightarrow> pyfloat option) \<Rightarrow> pyval \<Rightarrow> (string \<times> pyval) list"
where
  "normalize_row str_int str_float row =
     (case row of
        PDict items \<Rightarrow>
          (let out1 = copy_fields items DEFAULT_ROW;
               out2 = AList.update ''negative''
                        (PBool (py_bool (dict_get out1 ''negative'' (PBool False)))) out1;
               out3 = AList.update ''wait_till''
                        (PFloat (safe_float str_float (dict_get out2 ''wait_till'' (PFloat (Finite 1)))
                           (Finite 1))) out2;
               out4 = AList.update ''print_ahead_chars''
                        (PInt (safe_int str_int (dict_get out3 ''print_ahead_chars'' (PInt 40)) 0)) out3;
               out5 = AList.update ''retries''
                        (PInt (safe_int str_int (dict_get out4 ''retries'' (PInt 0)) 0)) out4
           in out5)
      | _ \<Rightarrow> DEFAULT_ROW)"

subsection \<open>The matcher as the specification words it\<close>

text \<open>
  Section 4.2 of the specification: a literal check matches if the literal is non-empty
  and a substring of the buffer; a regex check matches if the pattern is non-empty and
  finds a match anywhere in the buffer; either one suffices.
\<close>

definition spec_matches :: "('d, 'p) env \<Rightarrow> string \<Rightarrow> string \<Rightarrow> string \<Rightarrow> bool" where
  "spec_matches E lit regex buf =
     ((lit \<noteq> [] \<and> sublist lit buf) \<or>
      (regex \<noteq> [] \<and> (case re_compile E regex of Inl e \<Rightarrow> False | Inr p \<Rightarrow> pat_search E p buf)))"

subsection \<open>A modem for the examples\<close>

text \<open>
  A serial line that answers \<^verbatim>\<open>OK\<close> to the command \<^verbatim>\<open>AT\<close> and nothing to any other
  command. \<open>inbuf\<close> is the input buffer of the port, \<open>wcount\<close> counts the calls of
  \<^verbatim>\<open>write\<close>. The line has at most one fault: \<open>Write_timeout_once\<close> makes the first call
  of \<^verbatim>\<open>write\<close> raise and the later ones work, \<open>Read_fails\<close> makes every \<^verbatim>\<open>read\<close>
  raise. Patterns are plain words, found as substrings, and a lone opening parenthesis is
  the one malformed pattern.
\<close>

record modem =
  inbuf :: string
  wcount :: nat

datatype fault = Sound | Write_timeout_once | Read_fails

definition crlf :: string where
  "crlf = [CHR 0x0D, CHR 0x0A]"

definition modem_env :: "fault \<Rightarrow> (modem, string) env" where
  "modem_env flt =
     \<lparr>ser_reset = (\<lambda>d. (Inr (), d\<lparr>inbuf := []\<rparr>)),
      ser_write = (\<lambda>s d.
        if flt = Write_timeout_once \<and> wcount d = 0 then (Inl ''Write timeout'', d\<lparr>wcount := 1\<rparr>)
        else (Inr (), d\<lparr>inbuf := inbuf d @ (if s = ''AT'' @ crlf then ''OK'' @ crlf else []),
                         wcount := wcount d + 1\<rparr>)),
      ser_in_waiting = (\<lambda>d. (Inr (length (inbuf d)), d)),
      ser_read = (\<lambda>n d.
        if flt = Read_fails then (Inl ''device reports readiness to read but returned no data'', d)
        else (Inr (take n (inbuf d)), d\<lparr>inbuf := drop n (inbuf d)\<rparr>)),
      ser_is_open = (\<lambda>d. True),
      ser_elapse = (\<lambda>ms d. d),
      re_compile = (\<lambda>p. if p = ''(''
        then Inl ''missing ), unterminated subpattern at position 0'' else Inr p),
      pat_search = (\<lambda>p s. sublist p s),
      textwrap_wrap = (\<lambda>s width. if s = [] then [] else [s])\<rparr>"

definition modem_world :: "modem world" where
  "modem_world = \<lparr>ser = Some \<lparr>inbuf = [], wcount = 0\<rparr>, clock = 0, stop_pressed_at = None\<rparr>"

definition at_test :: testcase where
  "at_test =
     \<lparr>command_name = ''ping'', command = ''AT'', expected = ''OK'', expected_regex = [],
      negative = False, wait_till = 1, print_after = [], print_ahead_chars = 40,
      message = [], retries = 0\<rparr>"

section \<open>Properties\<close>

subsection \<open>The wait loop, one poll at a time\<close>

lemma poll_loop_timeout:
  "\<not> clock w - ts < 3000 \<Longrightarrow> poll_loop E lit regex ts w buf = (Inr (False, buf), w)"
  by (simp add: poll_loop.simps)

lemma poll_loop_step:
  "clock w - ts < 3000 \<Longrightarrow>
   poll_loop E lit regex ts w buf =
     (case drain E (sleep E 50 w) buf of
        (Inl e, w1) \<Rightarrow> (Inl e, w1)
      | (Inr buf1, w1) \<Rightarrow>
          (case check_match E lit regex buf1 of
             Inl e \<Rightarrow> (Inl e, w1)
           | Inr True \<Rightarrow> (Inr (True, buf1), w1)
           | Inr False \<Rightarrow> poll_loop E lit regex ts w1 buf1))"
  by (simp add: poll_loop.simps[of E lit regex ts w buf])

lemma poll_loop_induct [case_names poll]:
  assumes "\<And>w buf.
    (\<And>w1 buf1. clock w - ts < 3000 \<Longrightarrow> drain E (sleep E 50 w) buf = (Inr buf1, w1) \<Longrightarrow>
       check_match E lit regex buf1 = Inr False \<Longrightarrow> P w1 buf1) \<Longrightarrow> P w buf"
  shows "P w buf"
  using assms
  by (induction E lit regex ts w buf rule: poll_loop.induct) metis

lemma drain_clock: "drain E w buf = (res, w1) \<Longrightarrow> clock w1 = clock w"
  by (auto simp: drain_def split: option.splits prod.splits sum.splits if_splits)

lemma sleep_clock: "clock (sleep E ms w) = clock w + ms"
  by (simp add: sleep_def)

lemma check_match_spec:
  "check_match E lit regex buf = Inr True \<longleftrightarrow> spec_matches E lit regex buf"
  by (auto simp: check_match_def spec_matches_def re_search_def split: sum.splits)

lemma poll_loop_found:
  "poll_loop E lit regex ts w buf0 = (Inr (True, buf), w1) \<Longrightarrow>
   check_match E lit regex buf = Inr True"
proof (induction w buf0 rule: poll_loop_induct[where E = E and lit = lit and regex = regex and ts = ts])
  case (poll w buf0)
  show ?case
  proof (cases "clock w - ts < 3000")
    case False
    with poll.prems show ?thesis by (simp add: poll_loop_timeout)
  next
    case True
    with poll show ?thesis
      by (auto simp: poll_loop_step split: prod.splits sum.splits bool.splits)
  qed
qed

lemma poll_loop_not_found:
  "poll_loop E lit regex ts w buf0 = (Inr (False, buf), w1) \<Longrightarrow>
   clock w - ts < 3000 \<or> check_match E lit regex buf0 = Inr False \<Longrightarrow>
   check_match E lit regex buf = Inr False"
proof (induction w buf0 rule: poll_loop_induct[where E = E and lit = lit and regex = regex and ts = ts])
  case (poll w buf0)
  show ?case
  proof (cases "clock w - ts < 3000")
    case False
    with poll.prems show ?thesis by (simp add: poll_loop_timeout)
  next
    case True
    with poll show ?thesis
      by (auto simp: poll_loop_step split: prod.splits sum.splits bool.splits)
  qed
qed


subsection \<open>The Stop button does not reach into an attempt\<close>

lemma sleep_stop: "sleep E ms (w\<lparr>stop_pressed_at := x\<rparr>) = (sleep E ms w)\<lparr>stop_pressed_at := x\<rparr>"
  by (simp add: sleep_def)

lemma drain_stop:
  "drain E (w\<lparr>stop_pressed_at := x\<rparr>) buf =
     (case drain E w buf of (res, w1) \<Rightarrow> (res, w1\<lparr>stop_pressed_at := x\<rparr>))"
  by (simp add: drain_def split: option.splits prod.splits sum.splits)

lemma send_command_stop:
  "send_command E cmd (w\<lparr>stop_pressed_at := x\<rparr>) =
     (case send_command E cmd w of (res, w1) \<Rightarrow> (res, w1\<lparr>stop_pressed_at := x\<rparr>))"
  by (simp add: send_command_def sleep_def split: option.splits prod.splits sum.splits)

lemma poll_loop_stop:
  "poll_loop E lit regex ts (w\<lparr>stop_pressed_at := x\<rparr>) buf =
     (case poll_loop E lit regex ts w buf of (res, w1) \<Rightarrow> (res, w1\<lparr>stop_pressed_at := x\<rparr>))"
proof (induction w buf rule: poll_loop_induct[where E = E and lit = lit and regex = regex and ts = ts])
  case (poll w buf)
  show ?case
  proof (cases "clock w - ts < 3000")
    case False
    then show ?thesis by (simp add: poll_loop_timeout)
  next
    case True
    then have "clock (w\<lparr>stop_pressed_at := x\<rparr>) - ts < 3000" by simp
    with True poll show ?thesis
      by (simp add: poll_loop_step sleep_stop drain_stop split: prod.splits sum.splits bool.splits)
  qed
qed

lemma run_attempt_stop:
  "run_attempt E (w\<lparr>stop_pressed_at := x\<rparr>) r =
     (case run_attempt E w r of (w1, r1) \<Rightarrow> (w1\<lparr>stop_pressed_at := x\<rparr>, r1))"
  by (simp add: run_attempt_def Let_def send_command_stop poll_loop_stop
      split: prod.splits sum.splits)

lemma run_attempt_keeps_stop:
  assumes "run_attempt E w r = (w1, r1)"
  shows "stop_pressed_at w1 = stop_pressed_at w"
proof -
  have "w1 = w1\<lparr>stop_pressed_at := stop_pressed_at w\<rparr>"
    using run_attempt_stop[where E = E and w = w and x = "stop_pressed_at w" and r = r] assms by simp
  then show ?thesis
    by (metis world.select_convs(3) world.surjective world.update_convs(3))
qed

lemma send_command_clock: "send_command E cmd w = (res, w1) \<Longrightarrow> clock w \<le> clock w1"
  by (auto simp: send_command_def sleep_def split: option.splits prod.splits sum.splits)

lemma poll_loop_mono: "poll_loop E lit regex ts w buf = (res, w1) \<Longrightarrow> clock w \<le> clock w1"
proof (induction w buf rule: poll_loop_induct[where E = E and lit = lit and regex = regex and ts = ts])
  case (poll w buf)
  show ?case
  proof (cases "clock w - ts < 3000")
    case False
    with poll.prems show ?thesis by (simp add: poll_loop_timeout)
  next
    case True
    obtain r wd where d: "drain E (sleep E 50 w) buf = (r, wd)"
      by (cases "drain E (sleep E 50 w) buf")
    have cd: "clock wd = clock w + 50"
      using drain_clock[OF d] by (simp add: sleep_clock)
    from True d poll.prems have "w1 = wd \<or> (\<exists>buf1. r = Inr buf1 \<and>
        check_match E lit regex buf1 = Inr False \<and> poll_loop E lit regex ts wd buf1 = (res, w1))"
      by (auto simp: poll_loop_step split: sum.splits bool.splits)
    then show ?thesis
    proof
      assume "w1 = wd" with cd show ?thesis by simp
    next
      assume "\<exists>buf1. r = Inr buf1 \<and> check_match E lit regex buf1 = Inr False \<and>
        poll_loop E lit regex ts wd buf1 = (res, w1)"
      then obtain buf1 where "r = Inr buf1" "check_match E lit regex buf1 = Inr False"
        "poll_loop E lit regex ts wd buf1 = (res, w1)" by blast
      with poll.IH[OF True _ this(2) this(3)] d cd show ?thesis by simp
    qed
  qed
qed

lemma run_attempt_clock: "run_attempt E w r = (w1, r1) \<Longrightarrow> clock w \<le> clock w1"
  by (auto simp: run_attempt_def Let_def split: prod.splits sum.splits if_splits
      dest!: send_command_clock poll_loop_mono)

lemma run_attempt_terminal:
  "run_attempt E w r = (w1, r1) \<Longrightarrow> result_col r1 \<in> {''PASS'', ''FAIL'', ''ERROR''}"
  by (auto simp: run_attempt_def Let_def mark_pass_def mark_fail_def mark_error_def
      split: prod.splits sum.splits if_splits)

lemma run_worker_stopped: "stop_flag w \<Longrightarrow> run_worker E w rs = (w, rs)"
  by (cases rs) simp_all

lemma run_worker_append:
  "run_worker E w (xs @ ys) =
     (case run_worker E w xs of (w1, xs1) \<Rightarrow>
        (case run_worker E w1 ys of (w2, ys1) \<Rightarrow> (w2, xs1 @ ys1)))"
proof (induction xs arbitrary: w)
  case Nil
  show ?case by (simp split: prod.splits)
next
  case (Cons x xs)
  show ?case
  proof (cases "stop_flag w")
    case True
    then show ?thesis by (simp add: run_worker_stopped)
  next
    case False
    then show ?thesis by (simp add: Cons.IH split: prod.splits)
  qed
qed

lemma run_worker_undisturbed:
  "stop_pressed_at w = None \<Longrightarrow> run_worker E w rs = (w1, rs1) \<Longrightarrow>
   stop_pressed_at w1 = None \<and> length rs1 = length rs \<and>
   (\<forall>r\<in>set rs1. result_col r \<in> {''PASS'', ''FAIL'', ''ERROR''})"
proof (induction rs arbitrary: w w1 rs1)
  case Nil
  then show ?case by simp
next
  case (Cons r rs)
  from Cons.prems(1) have ns: "\<not> stop_flag w" by (simp add: stop_flag_def)
  obtain wa ra where a: "run_attempt E w r = (wa, ra)" by (cases "run_attempt E w r")
  obtain wb rb where b: "run_worker E wa rs = (wb, rb)" by (cases "run_worker E wa rs")
  from a Cons.prems(1) have "stop_pressed_at wa = None"
    by (simp add: run_attempt_keeps_stop)
  from Cons.IH[OF this b] a b ns Cons.prems(2) run_attempt_terminal[OF a]
  show ?case by auto
qed

lemma run_worker_clock: "run_worker E w rs = (w1, rs1) \<Longrightarrow> clock w \<le> clock w1"
proof (induction rs arbitrary: w w1 rs1)
  case Nil
  then show ?case by simp
next
  case (Cons r rs)
  show ?case
  proof (cases "stop_flag w")
    case True
    with Cons.prems show ?thesis by simp
  next
    case False
    obtain wa ra where a: "run_attempt E w r = (wa, ra)" by (cases "run_attempt E w r")
    obtain wb rb where b: "run_worker E wa rs = (wb, rb)" by (cases "run_worker E wa rs")
    from Cons.IH[OF b] run_attempt_clock[OF a] a b False Cons.prems show ?thesis by simp
  qed
qed

text \<open>A press that comes later than the end of a run does not change the run.\<close>

lemma run_worker_press_later:
  "stop_pressed_at w = None \<Longrightarrow> run_worker E w rs = (w1, rs1) \<Longrightarrow> clock w1 < t \<Longrightarrow>
   run_worker E (w\<lparr>stop_pressed_at := Some t\<rparr>) rs = (w1\<lparr>stop_pressed_at := Some t\<rparr>, rs1)"
proof (induction rs arbitrary: w w1 rs1)
  case Nil
  then show ?case by simp
next
  case (Cons r rs)
  from Cons.prems(1) have ns: "\<not> stop_flag w" by (simp add: stop_flag_def)
  obtain wa ra where a: "run_attempt E w r = (wa, ra)" by (cases "run_attempt E w r")
  obtain wb rb where b: "run_worker E wa rs = (wb, rb)" by (cases "run_worker E wa rs")
  from a b ns Cons.prems(2) have eq: "w1 = wb" "rs1 = ra # rb" by simp_all
  from a Cons.prems(1) have sa: "stop_pressed_at wa = None"
    by (simp add: run_attempt_keeps_stop)
  have "clock w \<le> clock wa" using run_attempt_clock[OF a] .
  also have "clock wa \<le> clock wb" using run_worker_clock[OF b] .
  finally have "clock w < t" using Cons.prems(3) eq by simp
  then have ns': "\<not> stop_flag (w\<lparr>stop_pressed_at := Some t\<rparr>)" by (simp add: stop_flag_def)
  from Cons.IH[OF sa b] Cons.prems(3) eq
  have "run_worker E (wa\<lparr>stop_pressed_at := Some t\<rparr>) rs = (wb\<lparr>stop_pressed_at := Some t\<rparr>, rb)"
    by simp
  with ns' a eq show ?case by (simp add: run_attempt_stop)
qed

subsection \<open>The buffer only grows; the table shows four fields of a test case\<close>



lemma run_all_shown:
  assumes "\<And>t. command_name (g t) = command_name t \<and> command (g t) = command t \<and>
    expected (g t) = expected t \<and> expected_regex (g t) = expected_regex t"
  shows "run_all E w (map g tests) iv = run_all E w tests iv"
proof -
  have "pending_row E it (g t) = pending_row E it t" for it t
    unfolding pending_row_def using assms[of t] by simp
  then have sch: "schedule_rows E n (map g tests) = schedule_rows E n tests" for n
    by (simp add: schedule_rows_def comp_def)
  show ?thesis by (simp add: run_all_def sch split: option.splits)
qed

subsection \<open>Evaluating the modem\<close>

lemmas modem_eval =
  modem_env_def modem_world_def at_test_def crlf_def
  drain_def sleep_def send_command_def check_match_def re_search_def
  sublist_code prefix_code show_nat.simps

lemmas attempt_eval =
  run_attempt_def Let_def pending_row_def wrap_text_def replace_newlines_def
  mark_running_def mark_pass_def mark_fail_def mark_error_def py_strip_def py_isspace_def
  fmt_2f_def digit_char_def poll_loop_step poll_loop_timeout

section \<open>The claims\<close>

subsection \<open>C1: the match decision\<close>

text \<open>
  C1. At every poll the runner decides on the accumulated buffer whether the answer has
  arrived. \<open>check_match\<close> is the decision as the code makes it, \<open>spec_matches\<close> the one
  the specification words. The code matches exactly when the specification's rule
  holds: the literal is non-empty and a substring of the buffer, or the pattern is
  non-empty, compiles and finds a match in the buffer. The literal is tested first and a
  hit ends the poll before the pattern is looked at, so the poll matches then whatever
  the pattern is, even a malformed one. With both expectations empty no buffer matches.
  For the whole wait loop of an attempt, entered within its window: when the loop ends
  without an exception, its \<^verbatim>\<open>found\<close> flag is the specification's rule on the buffer the
  loop ends with.
\<close>

theorem match_decision:
  "(check_match E lit regex buf = Inr True \<longleftrightarrow> spec_matches E lit regex buf) \<and>
   (lit \<noteq> [] \<and> sublist lit buf \<longrightarrow> check_match E lit regex buf = Inr True) \<and>
   check_match E [] [] buf = Inr False \<and>
   (clock w - ts < 3000 \<and> poll_loop E lit regex ts w buf0 = (Inr (found, buf), w1) \<longrightarrow>
      found = spec_matches E lit regex buf)"
proof (intro conjI impI)
  show "check_match E lit regex buf = Inr True \<longleftrightarrow> spec_matches E lit regex buf"
    by (rule check_match_spec)
  show "check_match E lit regex buf = Inr True" if "lit \<noteq> [] \<and> sublist lit buf"
    using that by (simp add: check_match_def)
  show "check_match E [] [] buf = Inr False"
    by (simp add: check_match_def)
  show "found = spec_matches E lit regex buf"
    if h: "clock w - ts < 3000 \<and> poll_loop E lit regex ts w buf0 = (Inr (found, buf), w1)"
  proof (cases found)
    case True
    with h poll_loop_found[of E lit regex ts w buf0 buf w1] show ?thesis
      by (simp add: check_match_spec)
  next
    case False
    with h poll_loop_not_found[of E lit regex ts w buf0 buf w1]
    have "check_match E lit regex buf = Inr False" by simp
    with False check_match_spec[of E lit regex buf] show ?thesis by simp
  qed
qed

text \<open>
  The modem has answered \<^verbatim>\<open>OK\<close>; the test case expects the literal \<^verbatim>\<open>OK\<close> and carries
  the malformed pattern. The first poll matches on the literal.
\<close>

theorem match_decision_witness:
  "check_match (modem_env Sound) ''OK'' ''('' (''OK'' @ crlf) = Inr True \<and>
   spec_matches (modem_env Sound) ''OK'' ''('' (''OK'' @ crlf) \<and>
   check_match (modem_env Sound) [] [] (''OK'' @ crlf) = Inr False \<and>
   poll_loop (modem_env Sound) ''OK'' ''('' 0
      \<lparr>ser = Some \<lparr>inbuf = ''OK'' @ crlf, wcount = 1\<rparr>, clock = 0, stop_pressed_at = None\<rparr> [] =
    (Inr (True, ''OK'' @ crlf),
     \<lparr>ser = Some \<lparr>inbuf = [], wcount = 1\<rparr>, clock = 50, stop_pressed_at = None\<rparr>)"
proof -
  let ?w = "\<lparr>ser = Some \<lparr>inbuf = ''OK'' @ crlf, wcount = 1\<rparr>, clock = 0, stop_pressed_at = None\<rparr>"
  let ?w1 = "\<lparr>ser = Some \<lparr>inbuf = [], wcount = 1\<rparr>, clock = 50, stop_pressed_at = None\<rparr>"
  have lit: "''OK'' \<noteq> [] \<and> sublist ''OK'' (''OK'' @ crlf)"
    by (simp add: crlf_def sublist_code prefix_code)
  have run: "clock ?w - 0 < 3000 \<and>
      poll_loop (modem_env Sound) ''OK'' ''('' 0 ?w [] = (Inr (True, ''OK'' @ crlf), ?w1)"
    by (simp add: poll_loop_step modem_eval)
  from match_decision[where E = "modem_env Sound" and lit = "''OK''" and regex = "''(''"
      and buf = "''OK'' @ crlf" and w = ?w and ts = 0 and ?buf0.0 = "[]" and found = True
      and ?w1.0 = ?w1] lit run
  show ?thesis by blast
qed

subsection \<open>C2: the negative flag\<close>

text \<open>
  C2. The claim holds of the expression on line 409, \<^verbatim>\<open>found ^ negative\<close>, but the
  \<^verbatim>\<open>negative\<close> of that line is the local constant \<^verbatim>\<open>False\<close> of line 384, not the field
  of the test case: a plan whose \<^verbatim>\<open>negative\<close> values are replaced by any others gives
  the same run. The test case with \<^verbatim>\<open>negative\<close> set, whose literal \<^verbatim>\<open>OK\<close> the modem
  sends, records \<^verbatim>\<open>PASS\<close> where the claim asks for \<^verbatim>\<open>FAIL\<close>.
\<close>

theorem negative_flag_ignored:
  "run_all E w (map (\<lambda>t. t\<lparr>negative := f t\<rparr>) tests) iv = run_all E w tests iv \<and>
   run_all (modem_env Sound) modem_world [at_test\<lparr>negative := True\<rparr>] 1 =
     Some (\<lparr>ser = Some \<lparr>inbuf = [], wcount = 1\<rparr>, clock = 150, stop_pressed_at = None\<rparr>,
           [\<lparr>iter_col = 1, cmd_name_col = ''ping'', cmd_col = ''AT'', expected_col = ''OK'',
             regex_col = [], found_col = ''YES'', result_col = ''PASS'',
             duration_col = ''0.05'', snippet_col = ''OK'', tags = [''pass'']\<rparr>])"
proof
  show "run_all E w (map (\<lambda>t. t\<lparr>negative := f t\<rparr>) tests) iv = run_all E w tests iv"
    by (rule run_all_shown) simp
  show "run_all (modem_env Sound) modem_world [at_test\<lparr>negative := True\<rparr>] 1 =
     Some (\<lparr>ser = Some \<lparr>inbuf = [], wcount = 1\<rparr>, clock = 150, stop_pressed_at = None\<rparr>,
           [\<lparr>iter_col = 1, cmd_name_col = ''ping'', cmd_col = ''AT'', expected_col = ''OK'',
             regex_col = [], found_col = ''YES'', result_col = ''PASS'',
             duration_col = ''0.05'', snippet_col = ''OK'', tags = [''pass'']\<rparr>])"
    by (simp add: run_all_def schedule_rows_def clear_stop_def stop_flag_def attempt_eval modem_eval)
qed

subsection \<open>C3: retries\<close>





subsection \<open>C4: an exception of the port ends the attempt, not the run\<close>

text \<open>
  C4. The calls of the port stand inside the \<^verbatim>\<open>try\<close> of lines 387 to 414.
  \<^item> Sending the command raises exactly when \<^verbatim>\<open>reset_input_buffer\<close> or \<^verbatim>\<open>write\<close>
    raises, and reading at a poll raises exactly when \<^verbatim>\<open>in_waiting\<close> (read twice) or
    \<^verbatim>\<open>read\<close> raises; the world is then as the failing call left it.
  \<^item> When sending raises \<open>msg\<close>, the attempt ends at once: the row is the running row
    marked as an error with \<open>msg\<close>.
  \<^item> When the read of a poll raises \<open>msg\<close>, the wait loop ends at that poll with \<open>msg\<close>,
    and when the wait loop raises \<open>msg\<close> the row is the running row marked as an error
    with \<open>msg\<close>.
  \<^item> A row marked as an error has the verdict \<^verbatim>\<open>ERROR\<close>, \<^verbatim>\<open>?\<close> in the Found column and
    the message in the Snippet column.
  \<^item> The run goes on: the worker, which returns a table and never an exception, records
    the row of the attempt and continues with the next row in the world the attempt
    left.
\<close>

theorem transport_error_contained:
  "(send_command E cmd w = (Inl msg, w1) \<longleftrightarrow>
      (\<exists>d. ser w = Some d \<and>
         ((\<exists>d1. ser_reset E d = (Inl msg, d1) \<and> w1 = w\<lparr>ser := Some d1\<rparr>) \<or>
          (\<exists>u d1 d2. ser_reset E d = (Inr u, d1) \<and>
             ser_write E (cmd @ [CHR 0x0D, CHR 0x0A]) d1 = (Inl msg, d2) \<and>
             w1 = w\<lparr>ser := Some d2\<rparr>)))) \<and>
   (drain E w buf = (Inl msg, w1) \<longleftrightarrow>
      (\<exists>d. ser w = Some d \<and>
         ((\<exists>d1. ser_in_waiting E d = (Inl msg, d1) \<and> w1 = w\<lparr>ser := Some d1\<rparr>) \<or>
          (\<exists>n d1 d2. ser_in_waiting E d = (Inr n, d1) \<and> n \<noteq> 0 \<and>
             ser_in_waiting E d1 = (Inl msg, d2) \<and> w1 = w\<lparr>ser := Some d2\<rparr>) \<or>
          (\<exists>n d1 m d2 d3. ser_in_waiting E d = (Inr n, d1) \<and> n \<noteq> 0 \<and>
             ser_in_waiting E d1 = (Inr m, d2) \<and> ser_read E m d2 = (Inl msg, d3) \<and>
             w1 = w\<lparr>ser := Some d3\<rparr>)))) \<and>
   (send_command E (replace_newlines (cmd_col r)) w = (Inl msg, w1) \<longrightarrow>
      run_attempt E w r = (w1, mark_error (mark_running r) msg)) \<and>
   (clock wp - ts < 3000 \<and> drain E (sleep E 50 wp) buf = (Inl msg, wq) \<longrightarrow>
      poll_loop E lit regex ts wp buf = (Inl msg, wq)) \<and>
   (send_command E (replace_newlines (cmd_col r)) w = (Inr u, wa) \<and>
    poll_loop E (expected_col r) (regex_col r) (clock wa) wa [] = (Inl msg, wb) \<longrightarrow>
      run_attempt E w r = (wb, mark_error (mark_running r) msg)) \<and>
   (result_col (mark_error r0 msg) = ''ERROR'' \<and> found_col (mark_error r0 msg) = ''?'' \<and>
    snippet_col (mark_error r0 msg) = msg) \<and>
   (\<not> stop_flag w \<and> run_attempt E w r = (wn, rn) \<longrightarrow>
      run_worker E w (r # rs) = (fst (run_worker E wn rs), rn # snd (run_worker E wn rs)))"
proof (intro conjI impI)
  show "send_command E cmd w = (Inl msg, w1) \<longleftrightarrow>
      (\<exists>d. ser w = Some d \<and>
         ((\<exists>d1. ser_reset E d = (Inl msg, d1) \<and> w1 = w\<lparr>ser := Some d1\<rparr>) \<or>
          (\<exists>u d1 d2. ser_reset E d = (Inr u, d1) \<and>
             ser_write E (cmd @ [CHR 0x0D, CHR 0x0A]) d1 = (Inl msg, d2) \<and>
             w1 = w\<lparr>ser := Some d2\<rparr>)))"
    by (auto simp: send_command_def split: option.splits prod.splits sum.splits)
  show "drain E w buf = (Inl msg, w1) \<longleftrightarrow>
      (\<exists>d. ser w = Some d \<and>
         ((\<exists>d1. ser_in_waiting E d = (Inl msg, d1) \<and> w1 = w\<lparr>ser := Some d1\<rparr>) \<or>
          (\<exists>n d1 d2. ser_in_waiting E d = (Inr n, d1) \<and> n \<noteq> 0 \<and>
             ser_in_waiting E d1 = (Inl msg, d2) \<and> w1 = w\<lparr>ser := Some d2\<rparr>) \<or>
          (\<exists>n d1 m d2 d3. ser_in_waiting E d = (Inr n, d1) \<and> n \<noteq> 0 \<and>
             ser_in_waiting E d1 = (Inr m, d2) \<and> ser_read E m d2 = (Inl msg, d3) \<and>
             w1 = w\<lparr>ser := Some d3\<rparr>)))"
    by (auto simp: drain_def split: option.splits prod.splits sum.splits if_splits)
  show "run_attempt E w r = (w1, mark_error (mark_running r) msg)"
    if "send_command E (replace_newlines (cmd_col r)) w = (Inl msg, w1)"
    using that by (simp add: run_attempt_def Let_def mark_running_def)
  show "poll_loop E lit regex ts wp buf = (Inl msg, wq)"
    if "clock wp - ts < 3000 \<and> drain E (sleep E 50 wp) buf = (Inl msg, wq)"
    using that by (simp add: poll_loop_step)
  show "run_attempt E w r = (wb, mark_error (mark_running r) msg)"
    if "send_command E (replace_newlines (cmd_col r)) w = (Inr u, wa) \<and>
      poll_loop E (expected_col r) (regex_col r) (clock wa) wa [] = (Inl msg, wb)"
    using that by (simp add: run_attempt_def Let_def mark_running_def)
  show "result_col (mark_error r0 msg) = ''ERROR''" "found_col (mark_error r0 msg) = ''?''"
    "snippet_col (mark_error r0 msg) = msg"
    by (simp_all add: mark_error_def)
  show "run_worker E w (r # rs) = (fst (run_worker E wn rs), rn # snd (run_worker E wn rs))"
    if "\<not> stop_flag w \<and> run_attempt E w r = (wn, rn)"
    using that by (simp add: case_prod_beta)
qed

text \<open>
  On the line whose first \<^verbatim>\<open>write\<close> times out, the first of two attempts ends as an
  error with the message of the timeout and the second passes. On the line whose \<^verbatim>\<open>read\<close>
  fails, the first poll raises and the attempt ends as an error with that message.
\<close>

theorem transport_error_contained_witness:
  "send_command (modem_env Write_timeout_once) ''AT'' modem_world =
     (Inl ''Write timeout'', modem_world\<lparr>ser := Some \<lparr>inbuf = [], wcount = 1\<rparr>\<rparr>) \<and>
   run_worker (modem_env Write_timeout_once) modem_world
     [pending_row (modem_env Write_timeout_once) 1 at_test,
      pending_row (modem_env Write_timeout_once) 2 at_test] =
     (\<lparr>ser = Some \<lparr>inbuf = [], wcount = 2\<rparr>, clock = 150, stop_pressed_at = None\<rparr>,
      [\<lparr>iter_col = 1, cmd_name_col = ''ping'', cmd_col = ''AT'', expected_col = ''OK'',
        regex_col = [], found_col = ''?'', result_col = ''ERROR'', duration_col = [],
        snippet_col = ''Write timeout'', tags = [''error'']\<rparr>,
       \<lparr>iter_col = 2, cmd_name_col = ''ping'', cmd_col = ''AT'', expected_col = ''OK'',
        regex_col = [], found_col = ''YES'', result_col = ''PASS'', duration_col = ''0.05'',
        snippet_col = ''OK'', tags = [''pass'']\<rparr>]) \<and>
   run_attempt (modem_env Read_fails) modem_world (pending_row (modem_env Read_fails) 1 at_test) =
     (\<lparr>ser = Some \<lparr>inbuf = ''OK'' @ crlf, wcount = 1\<rparr>, clock = 150, stop_pressed_at = None\<rparr>,
      \<lparr>iter_col = 1, cmd_name_col = ''ping'', cmd_col = ''AT'', expected_col = ''OK'',
       regex_col = [], found_col = ''?'', result_col = ''ERROR'', duration_col = [],
       snippet_col = ''device reports readiness to read but returned no data'',
       tags = [''error'']\<rparr>)"
proof -
  let ?F = "modem_env Write_timeout_once"
  let ?R = "modem_env Read_fails"
  let ?p1 = "pending_row ?F 1 at_test"
  let ?p2 = "pending_row ?F 2 at_test"
  let ?q = "pending_row ?R 1 at_test"
  let ?w1 = "modem_world\<lparr>ser := Some \<lparr>inbuf = [], wcount = 1\<rparr>\<rparr>"
  let ?w2 = "\<lparr>ser = Some \<lparr>inbuf = [], wcount = 2\<rparr>, clock = 150, stop_pressed_at = None\<rparr>"
  let ?e1 = "\<lparr>iter_col = 1, cmd_name_col = ''ping'', cmd_col = ''AT'', expected_col = ''OK'',
        regex_col = [], found_col = ''?'', result_col = ''ERROR'', duration_col = [],
        snippet_col = ''Write timeout'', tags = [''error'']\<rparr>"
  let ?r2 = "\<lparr>iter_col = 2, cmd_name_col = ''ping'', cmd_col = ''AT'', expected_col = ''OK'',
        regex_col = [], found_col = ''YES'', result_col = ''PASS'', duration_col = ''0.05'',
        snippet_col = ''OK'', tags = [''pass'']\<rparr>"
  let ?wa = "\<lparr>ser = Some \<lparr>inbuf = ''OK'' @ crlf, wcount = 1\<rparr>, clock = 100, stop_pressed_at = None\<rparr>"
  let ?wb = "\<lparr>ser = Some \<lparr>inbuf = ''OK'' @ crlf, wcount = 1\<rparr>, clock = 150, stop_pressed_at = None\<rparr>"
  let ?msg = "''device reports readiness to read but returned no data''"
  note ev = run_attempt_def Let_def pending_row_def wrap_text_def replace_newlines_def
        mark_running_def mark_pass_def mark_error_def py_strip_def py_isspace_def fmt_2f_def
        digit_char_def poll_loop_step modem_eval
  have cmd: "replace_newlines (cmd_col ?p1) = ''AT''" "replace_newlines (cmd_col ?q) = ''AT''"
    "expected_col ?q = ''OK''" "regex_col ?q = []"
    by (simp_all add: ev)
  have ns: "\<not> stop_flag modem_world" "\<not> stop_flag ?w1"
    by (simp_all add: stop_flag_def modem_world_def)
  have s1: "send_command ?F ''AT'' modem_world = (Inl ''Write timeout'', ?w1)"
    by (simp add: modem_eval)
  from transport_error_contained[where E = ?F and w = modem_world and r = ?p1
      and msg = "''Write timeout''" and ?w1.0 = ?w1] s1 cmd
  have a1: "run_attempt ?F modem_world ?p1 = (?w1, mark_error (mark_running ?p1) ''Write timeout'')"
    by simp
  have a2: "run_attempt ?F ?w1 ?p2 = (?w2, ?r2)"
    by (simp add: ev)
  from transport_error_contained[where E = ?F and w = modem_world and r = ?p1 and wn = ?w1
      and rn = "mark_error (mark_running ?p1) ''Write timeout''" and rs = "[?p2]"] ns a1
  have "run_worker ?F modem_world [?p1, ?p2] =
      (fst (run_worker ?F ?w1 [?p2]), mark_error (mark_running ?p1) ''Write timeout'' #
        snd (run_worker ?F ?w1 [?p2]))"
    by (simp del: run_worker.simps)
  moreover have "run_worker ?F ?w1 [?p2] = (?w2, [?r2])"
    using ns a2 by simp
  moreover have "mark_error (mark_running ?p1) ''Write timeout'' = ?e1"
    by (simp add: ev)
  ultimately have run: "run_worker ?F modem_world [?p1, ?p2] = (?w2, [?e1, ?r2])"
    by (simp del: run_worker.simps)
  have s2: "send_command ?R ''AT'' modem_world = (Inr (), ?wa)"
    by (simp add: modem_eval)
  have d: "clock ?wa - clock ?wa < 3000 \<and> drain ?R (sleep ?R 50 ?wa) [] = (Inl ?msg, ?wb)"
    by (simp add: modem_eval)
  from transport_error_contained[where E = ?R and wp = ?wa and ts = "clock ?wa" and buf = "[]"
      and msg = ?msg and wq = ?wb and lit = "''OK''" and regex = "[]"] d
  have p: "poll_loop ?R ''OK'' [] (clock ?wa) ?wa [] = (Inl ?msg, ?wb)"
    by (simp del: world.simps)
  from transport_error_contained[where E = ?R and w = modem_world and r = ?q and u = "()"
      and wa = ?wa and msg = ?msg and wb = ?wb] s2 p cmd
  have "run_attempt ?R modem_world ?q = (?wb, mark_error (mark_running ?q) ?msg)"
    by (simp del: world.simps)
  moreover have "mark_error (mark_running ?q) ?msg =
      \<lparr>iter_col = 1, cmd_name_col = ''ping'', cmd_col = ''AT'', expected_col = ''OK'',
       regex_col = [], found_col = ''?'', result_col = ''ERROR'', duration_col = [],
       snippet_col = ?msg, tags = [''error'']\<rparr>"
    by (simp add: ev)
  ultimately show ?thesis
    using s1 run by (simp del: run_worker.simps)
qed

subsection \<open>C5: a pattern that does not compile\<close>





subsection \<open>C6: the wait window\<close>



subsection \<open>C7: loading a record of the plan\<close>

text \<open>
  C7. The default of \<^verbatim>\<open>print_ahead_chars\<close> is 40, in \<^verbatim>\<open>DEFAULT_ROW\<close> and in the
  \<^verbatim>\<open>out.get\<close> of line 45, but the call of \<^verbatim>\<open>safe_int\<close> on that line passes no default of
  its own, and the default of \<^verbatim>\<open>safe_int\<close> is 0. A record whose \<^verbatim>\<open>print_ahead_chars\<close> is
  \<^verbatim>\<open>null\<close>, or a string that \<^verbatim>\<open>int\<close> rejects, is normalized to 0, where the claim asks
  for 40. Unknown fields are dropped and the other fields take their defaults.
\<close>

theorem print_ahead_chars_coerces_to_zero:
  "normalize_row str_int str_float (PDict [(''print_ahead_chars'', PNone), (''colour'', PStr ''red'')]) =
     [(''command_name'', PStr []), (''command'', PStr []), (''expected'', PStr []),
      (''expected_regex'', PStr []), (''negative'', PBool False),
      (''wait_till'', PFloat (Finite 1)), (''print_after'', PStr []),
      (''print_ahead_chars'', PInt 0), (''message'', PStr []), (''retries'', PInt 0)] \<and>
   normalize_row (\<lambda>s. None) str_float (PDict [(''print_ahead_chars'', PStr ''abc'')]) =
     [(''command_name'', PStr []), (''command'', PStr []), (''expected'', PStr []),
      (''expected_regex'', PStr []), (''negative'', PBool False),
      (''wait_till'', PFloat (Finite 1)), (''print_after'', PStr []),
      (''print_ahead_chars'', PInt 0), (''message'', PStr []), (''retries'', PInt 0)] \<and>
   dict_get DEFAULT_ROW ''print_ahead_chars'' PNone = PInt 40"
  by (simp add: normalize_row_def copy_fields_def JSON_FIELDS_def DEFAULT_ROW_def dict_get_def
      safe_int_def safe_float_def Let_def)

subsection \<open>C8: stopping a run\<close>

lemma schedule_rows_pending: "r \<in> set (schedule_rows E n tests) \<Longrightarrow> result_col r = ''PENDING''"
  by (auto simp: schedule_rows_def pending_row_def)

text \<open>
  C8. The runner reads the stop flag once per row, before the attempt starts, and nowhere
  else.
  \<^item> Stop pressed between two attempts: the table of a run is \<open>xs @ ys\<close>, the attempts
    on \<open>xs\<close> have run with no press and Stop is pressed then. The worker leaves \<open>ys\<close> as
    it is: the run ends with one terminal verdict for each row of \<open>xs\<close> and every row of
    \<open>ys\<close> still \<^verbatim>\<open>PENDING\<close>.
  \<^item> Stop pressed at an instant \<open>t\<close> during the attempt on row \<open>x\<close> (after it started, no
    later than its end): the attempt is not cut short. The rows before \<open>x\<close> and \<open>x\<close>
    itself end exactly as in the run without a press, and the rows after \<open>x\<close> stay as
    they are.
  \<^item> An attempt gives the same row and leaves the same serial line and clock whenever
    Stop is or is not pressed.
  \<^item> The run over a table \<open>xs @ ys\<close> is the run over \<open>xs\<close> followed by the run over
    \<open>ys\<close> in the world the first left.
\<close>

theorem stop_between_attempts:
  "(stop_pressed_at w = None \<and> schedule_rows E n tests = xs @ ys \<and> run_worker E w xs = (w1, xs1) \<longrightarrow>
      run_worker E (stop_now w1) ys = (stop_now w1, ys) \<and>
      length xs1 = length xs \<and>
      (\<forall>r\<in>set xs1. result_col r \<in> {''PASS'', ''FAIL'', ''ERROR''}) \<and>
      (\<forall>r\<in>set ys. result_col r = ''PENDING'')) \<and>
   (stop_pressed_at w = None \<and> run_worker E w xs = (w0, xs0) \<and> run_attempt E w0 x = (wx, x1) \<and>
    clock w0 < t \<and> t \<le> clock wx \<longrightarrow>
      run_worker E (w\<lparr>stop_pressed_at := Some t\<rparr>) (xs @ x # ys) =
        (wx\<lparr>stop_pressed_at := Some t\<rparr>, xs0 @ x1 # ys)) \<and>
   run_attempt E (w\<lparr>stop_pressed_at := p\<rparr>) r =
     (case run_attempt E w r of (wa, ra) \<Rightarrow> (wa\<lparr>stop_pressed_at := p\<rparr>, ra)) \<and>
   run_worker E w (xs @ ys) =
     (case run_worker E w xs of (wa, xa) \<Rightarrow>
        (case run_worker E wa ys of (wb, yb) \<Rightarrow> (wb, xa @ yb)))"
proof (intro conjI impI)
  show "run_worker E w (xs @ ys) =
     (case run_worker E w xs of (wa, xa) \<Rightarrow>
        (case run_worker E wa ys of (wb, yb) \<Rightarrow> (wb, xa @ yb)))"
    by (rule run_worker_append)
next
  assume h: "stop_pressed_at w = None \<and> schedule_rows E n tests = xs @ ys \<and>
    run_worker E w xs = (w1, xs1)"
  have "stop_flag (stop_now w1)"
    by (simp add: stop_flag_def stop_now_def)
  then show "run_worker E (stop_now w1) ys = (stop_now w1, ys)"
    by (rule run_worker_stopped)
  from h run_worker_undisturbed[of w E xs w1 xs1]
  show "length xs1 = length xs" and "\<forall>r\<in>set xs1. result_col r \<in> {''PASS'', ''FAIL'', ''ERROR''}"
    by simp_all
  from h have "set ys \<subseteq> set (schedule_rows E n tests)" by simp
  then show "\<forall>r\<in>set ys. result_col r = ''PENDING''"
    by (auto dest: schedule_rows_pending)
next
  assume h: "stop_pressed_at w = None \<and> run_worker E w xs = (w0, xs0) \<and>
    run_attempt E w0 x = (wx, x1) \<and> clock w0 < t \<and> t \<le> clock wx"
  let ?w = "w\<lparr>stop_pressed_at := Some t\<rparr>"
  from h have before: "run_worker E ?w xs = (w0\<lparr>stop_pressed_at := Some t\<rparr>, xs0)"
    by (simp add: run_worker_press_later)
  from h have unseen: "\<not> stop_flag (w0\<lparr>stop_pressed_at := Some t\<rparr>)"
    by (simp add: stop_flag_def)
  from h have seen: "stop_flag (wx\<lparr>stop_pressed_at := Some t\<rparr>)"
    by (simp add: stop_flag_def)
  from h have att: "run_attempt E (w0\<lparr>stop_pressed_at := Some t\<rparr>) x = (wx\<lparr>stop_pressed_at := Some t\<rparr>, x1)"
    by (simp add: run_attempt_stop)
  have "run_worker E (w0\<lparr>stop_pressed_at := Some t\<rparr>) (x # ys) =
      (wx\<lparr>stop_pressed_at := Some t\<rparr>, x1 # ys)"
    using unseen att run_worker_stopped[OF seen, of E ys] by simp
  with before show "run_worker E ?w (xs @ x # ys) = (wx\<lparr>stop_pressed_at := Some t\<rparr>, xs0 @ x1 # ys)"
    by (simp add: run_worker_append)
next
  show "run_attempt E (w\<lparr>stop_pressed_at := p\<rparr>) r =
     (case run_attempt E w r of (wa, ra) \<Rightarrow> (wa\<lparr>stop_pressed_at := p\<rparr>, ra))"
    by (rule run_attempt_stop)
qed

text \<open>
  Two iterations of the one-command plan on the modem. The first attempt passes at
  150 ms. Stop pressed then, or pressed at 100 ms in the middle of the wait, leaves the
  first row \<^verbatim>\<open>PASS\<close> and the second \<^verbatim>\<open>PENDING\<close>.
\<close>

theorem stop_between_attempts_witness:
  "schedule_rows (modem_env Sound) 2 [at_test] =
     [pending_row (modem_env Sound) 1 at_test] @ [pending_row (modem_env Sound) 2 at_test] \<and>
   run_worker (modem_env Sound) modem_world [pending_row (modem_env Sound) 1 at_test] =
     (\<lparr>ser = Some \<lparr>inbuf = [], wcount = 1\<rparr>, clock = 150, stop_pressed_at = None\<rparr>,
      [\<lparr>iter_col = 1, cmd_name_col = ''ping'', cmd_col = ''AT'', expected_col = ''OK'',
        regex_col = [], found_col = ''YES'', result_col = ''PASS'', duration_col = ''0.05'',
        snippet_col = ''OK'', tags = [''pass'']\<rparr>]) \<and>
   run_worker (modem_env Sound)
     (stop_now \<lparr>ser = Some \<lparr>inbuf = [], wcount = 1\<rparr>, clock = 150, stop_pressed_at = None\<rparr>)
     [pending_row (modem_env Sound) 2 at_test] =
     (\<lparr>ser = Some \<lparr>inbuf = [], wcount = 1\<rparr>, clock = 150, stop_pressed_at = Some 150\<rparr>,
      [pending_row (modem_env Sound) 2 at_test]) \<and>
   result_col (pending_row (modem_env Sound) 2 at_test) = ''PENDING'' \<and>
   run_worker (modem_env Sound) (modem_world\<lparr>stop_pressed_at := Some 100\<rparr>)
     [pending_row (modem_env Sound) 1 at_test, pending_row (modem_env Sound) 2 at_test] =
     (\<lparr>ser = Some \<lparr>inbuf = [], wcount = 1\<rparr>, clock = 150, stop_pressed_at = Some 100\<rparr>,
      [\<lparr>iter_col = 1, cmd_name_col = ''ping'', cmd_col = ''AT'', expected_col = ''OK'',
        regex_col = [], found_col = ''YES'', result_col = ''PASS'', duration_col = ''0.05'',
        snippet_col = ''OK'', tags = [''pass'']\<rparr>,
       pending_row (modem_env Sound) 2 at_test])"
proof -
  let ?E = "modem_env Sound"
  let ?p1 = "pending_row ?E 1 at_test"
  let ?p2 = "pending_row ?E 2 at_test"
  let ?w1 = "\<lparr>ser = Some \<lparr>inbuf = [], wcount = 1\<rparr>, clock = 150, stop_pressed_at = None\<rparr>"
  let ?r1 = "\<lparr>iter_col = 1, cmd_name_col = ''ping'', cmd_col = ''AT'', expected_col = ''OK'',
        regex_col = [], found_col = ''YES'', result_col = ''PASS'', duration_col = ''0.05'',
        snippet_col = ''OK'', tags = [''pass'']\<rparr>"
  have s: "schedule_rows ?E 2 [at_test] = [?p1] @ [?p2]"
    by (simp add: schedule_rows_def upt_rec numeral_2_eq_2)
  have a: "run_attempt ?E modem_world ?p1 = (?w1, ?r1)"
    by (simp add: run_attempt_def Let_def pending_row_def wrap_text_def replace_newlines_def
        mark_running_def mark_pass_def py_strip_def py_isspace_def fmt_2f_def digit_char_def
        poll_loop_step modem_eval)
  have n: "stop_pressed_at modem_world = None" "clock modem_world = 0"
    by (simp_all add: modem_world_def)
  then have "\<not> stop_flag modem_world"
    by (simp add: stop_flag_def)
  with a have r: "run_worker ?E modem_world [?p1] = (?w1, [?r1])"
    by simp
  have r0: "run_worker ?E modem_world [] = (modem_world, [])"
    by simp
  have t: "clock modem_world < 100 \<and> (100 :: int) \<le> clock ?w1"
    using n by simp
  from stop_between_attempts[where E = ?E and w = modem_world and n = 2 and tests = "[at_test]"
      and xs = "[?p1]" and ys = "[?p2]" and ?w1.0 = ?w1 and ?xs1.0 = "[?r1]"] n s r
  have A: "run_worker ?E (stop_now ?w1) [?p2] = (stop_now ?w1, [?p2]) \<and> result_col ?p2 = ''PENDING''"
    by simp
  from stop_between_attempts[where E = ?E and w = modem_world and xs = "[]" and ?w0.0 = modem_world
      and ?xs0.0 = "[]" and x = ?p1 and wx = ?w1 and ?x1.0 = ?r1 and t = 100 and ys = "[?p2]"]
    n r0 a t
  have B: "run_worker ?E (modem_world\<lparr>stop_pressed_at := Some 100\<rparr>) [?p1, ?p2] =
      (?w1\<lparr>stop_pressed_at := Some 100\<rparr>, [?r1, ?p2])"
    by simp
  from s r A B show ?thesis
    by (simp del: run_worker.simps add: stop_now_def)
qed

subsection \<open>C9: the snippet and the message of the test case\<close>

text \<open>
  C9. \<^verbatim>\<open>_mark_pass\<close> and \<^verbatim>\<open>_mark_fail\<close> do show their \<^verbatim>\<open>msg\<close> argument instead of the
  snippet when it is non-empty, but the runner passes the local constant of line 385, the
  empty string, never the \<^verbatim>\<open>message\<close> of the test case: a plan whose messages are replaced
  by any others gives the same run. The test case with the message \<^verbatim>\<open>Modem alive\<close> records
  the snippet \<^verbatim>\<open>OK\<close>, the first 80 characters of the stripped buffer, where the claim asks
  for the message.
\<close>

theorem message_override_ignored:
  "snippet_col (mark_pass r snippet msg dur) = (if msg = [] then snippet else msg) \<and>
   snippet_col (mark_fail r snippet msg dur) = (if msg = [] then snippet else msg) \<and>
   run_all E w (map (\<lambda>t. t\<lparr>message := f t\<rparr>) tests) iv = run_all E w tests iv \<and>
   run_all (modem_env Sound) modem_world [at_test\<lparr>message := ''Modem alive''\<rparr>] 1 =
     Some (\<lparr>ser = Some \<lparr>inbuf = [], wcount = 1\<rparr>, clock = 150, stop_pressed_at = None\<rparr>,
           [\<lparr>iter_col = 1, cmd_name_col = ''ping'', cmd_col = ''AT'', expected_col = ''OK'',
             regex_col = [], found_col = ''YES'', result_col = ''PASS'',
             duration_col = ''0.05'', snippet_col = ''OK'', tags = [''pass'']\<rparr>])"
proof (intro conjI)
  show "snippet_col (mark_pass r snippet msg dur) = (if msg = [] then snippet else msg)"
    by (simp add: mark_pass_def)
  show "snippet_col (mark_fail r snippet msg dur) = (if msg = [] then snippet else msg)"
    by (simp add: mark_fail_def)
  show "run_all E w (map (\<lambda>t. t\<lparr>message := f t\<rparr>) tests) iv = run_all E w tests iv"
    by (rule run_all_shown) simp
  show "run_all (modem_env Sound) modem_world [at_test\<lparr>message := ''Modem alive''\<rparr>] 1 =
     Some (\<lparr>ser = Some \<lparr>inbuf = [], wcount = 1\<rparr>, clock = 150, stop_pressed_at = None\<rparr>,
           [\<lparr>iter_col = 1, cmd_name_col = ''ping'', cmd_col = ''AT'', expected_col = ''OK'',
             regex_col = [], found_col = ''YES'', result_col = ''PASS'',
             duration_col = ''0.05'', snippet_col = ''OK'', tags = [''pass'']\<rparr>])"
    by (simp add: run_all_def schedule_rows_def clear_stop_def stop_flag_def attempt_eval modem_eval)
qed

subsection \<open>C10: what an error writes into the row\<close>



end
